theory Spec2Isabelle
  imports Main "HOL-Library.AList"
begin

section \<open>Python values\<close>

text \<open>
  The functions of \<^verbatim>\<open>datalad/metadata/metadata.py\<close> are dynamically typed: an argument
  of \<^verbatim>\<open>_parse_argspec\<close> may be \<^verbatim>\<open>None\<close>, a dict, a list, a tuple or any scalar.
  The values that reach the code are modelled by one datatype. A dict literal is the list
  of its items in iteration order.
\<close>

datatype pyval =
    PNone
  | PBool bool
  | PInt int
  | PStr string
  | PList "pyval list"
  | PTuple "pyval list"
  | PDict "(pyval \<times> pyval) list"

text \<open>Python truth value testing, as used by \<^verbatim>\<open>if not args\<close> and \<^verbatim>\<open>if v\<close>.\<close>

fun truthy :: "pyval \<Rightarrow> bool" where
  "truthy PNone = False"
| "truthy (PBool b) = b"
| "truthy (PInt i) = (i \<noteq> 0)"
| "truthy (PStr s) = (s \<noteq> [])"
| "truthy (PList xs) = (xs \<noteq> [])"
| "truthy (PTuple xs) = (xs \<noteq> [])"
| "truthy (PDict kvs) = (kvs \<noteq> [])"

text \<open>
  The exceptions the code can raise. \<^verbatim>\<open>ValueError\<close> carries its message; the
  others are raised by the interpreter (\<^verbatim>\<open>k.lower()\<close> on a value that is not a
  string, \<^verbatim>\<open>+\<close> between a list and a value that is not a list, \<^verbatim>\<open>mp[0]\<close> on
  a dict without the key \<^verbatim>\<open>0\<close>).
\<close>

datatype error = ValueError string | AttributeError | TypeError | KeyError

text \<open>
  The dicts the code builds (\<^verbatim>\<open>mapping\<close>) have string keys. They are association
  lists in insertion order; \<^verbatim>\<open>mapping[key] = v\<close> is \<^const>\<open>AList.update\<close>, which
  replaces the value of a key that is present and appends a key that is not, and
  \<^verbatim>\<open>mapping.get(key)\<close> is \<^const>\<open>map_of\<close>.
\<close>

type_synonym pydict = "(string \<times> pyval) list"

section \<open>Key validation: \<^verbatim>\<open>_get_key\<close>\<close>

text \<open>
  \<^verbatim>\<open>str.lower()\<close>. A character of the model is a code point below 256. On these
  Python lower-cases the letters \<^verbatim>\<open>A\<close> to \<^verbatim>\<open>Z\<close> (65 to 90) and the Latin-1 capital
  letters (192 to 222, without the multiplication sign 215) by adding 32; every other
  code point below 256 is kept. In all of these capitals bit 5 is clear, so adding 32 is
  setting bit 5. Strings with a code point from 256 on are outside the model.
\<close>

definition is_upper :: "char \<Rightarrow> bool" where
  "is_upper c =
     (let n = (of_char c :: nat)
      in (65 \<le> n \<and> n \<le> 90) \<or> (192 \<le> n \<and> n \<le> 222 \<and> n \<noteq> 215))"

fun set_bit5 :: "char \<Rightarrow> char" where
  "set_bit5 (Char b0 b1 b2 b3 b4 b5 b6 b7) = Char b0 b1 b2 b3 b4 True b6 b7"

definition lower_char :: "char \<Rightarrow> char" where
  "lower_char c = (if is_upper c then set_bit5 c else c)"

definition lower :: "string \<Rightarrow> string" where
  "lower k = map lower_char k"

text \<open>
  \<^verbatim>\<open>valid_key = re.compile(r'^[0-9a-z._-]+$')\<close>. The character class
  \<^verbatim>\<open>[0-9a-z._-]\<close> is \<open>in_class\<close>. \<^verbatim>\<open>valid_key.match(k)\<close> anchors at the start of
  \<^verbatim>\<open>k\<close>, consumes one or more characters of the class, and then needs \<^verbatim>\<open>$\<close>, which
  in Python (without \<^verbatim>\<open>re.MULTILINE\<close>) matches at the end of the string and also just
  before a newline that is the last character of the string. No character of the class is
  a newline, so the match succeeds exactly when the longest prefix of class characters is
  not empty and what follows it is nothing or one final newline.
\<close>

definition valid_key_pattern :: string where
  "valid_key_pattern = ''^[0-9a-z._-]+$''"

definition in_class :: "char \<Rightarrow> bool" where
  "in_class c = (c \<in> set ''0123456789abcdefghijklmnopqrstuvwxyz._-'')"

definition valid_key_match :: "string \<Rightarrow> bool" where
  "valid_key_match k =
     (takeWhile in_class k \<noteq> [] \<and>
      (dropWhile in_class k = [] \<or> dropWhile in_class k = ''\<newline>''))"

text \<open>
  \<^verbatim>\<open>_get_key(k)\<close>: lower-case, match, raise \<^verbatim>\<open>ValueError\<close> with the lower-cased key
  and the pattern in the message, or return the lower-cased key. A \<^verbatim>\<open>k\<close> that is not a
  string has no method \<^verbatim>\<open>lower\<close>.
\<close>

definition invalid_key_message :: "string \<Rightarrow> string" where
  "invalid_key_message k =
     ''invalid metadata key \"'' @ k @ ''\", must match pattern '' @ valid_key_pattern"

fun get_key :: "pyval \<Rightarrow> error + string" where
  "get_key (PStr k) =
     (let k = lower k
      in if \<not> valid_key_match k then Inl (ValueError (invalid_key_message k))
         else Inr k)"
| "get_key _ = Inl AttributeError"

section \<open>Normalisation: \<^verbatim>\<open>_parse_argspec\<close>\<close>

text \<open>
  The loop of \<^verbatim>\<open>_parse_argspec\<close> updates the two locals \<^verbatim>\<open>tags\<close> and \<^verbatim>\<open>mapping\<close>;
  the model passes the pair along. The body has one branch for the items of a dict
  (\<^verbatim>\<open>asdict\<close>) and one for the elements of a list or tuple.
\<close>

type_synonym parsed = "pyval list \<times> pydict"

fun dict_entry :: "pyval \<times> pyval \<Rightarrow> parsed \<Rightarrow> error + parsed" where
  "dict_entry (k, v) (tags, mapping) =
     (if truthy v then
        (case get_key k of
           Inl e \<Rightarrow> Inl e
         | Inr key \<Rightarrow> Inr (tags, AList.update key v mapping))
      else Inr (tags @ [k], mapping))"

fun seq_entry :: "pyval \<Rightarrow> parsed \<Rightarrow> error + parsed" where
  "seq_entry k (tags, mapping) =
     (case k of
        PList l \<Rightarrow>
          (if length l = 1 then Inr (tags @ [hd l], mapping)
           else if length l > 1 then
             (case get_key (hd l) of
                Inl e \<Rightarrow> Inl e
              | Inr key \<Rightarrow> Inr (tags, AList.update key (PList (tl l)) mapping))
           else Inl (ValueError ''invalid metadata specification, something weird''))
      | _ \<Rightarrow> Inr (tags @ [k], mapping))"

text \<open>The \<^verbatim>\<open>for\<close> loop: an exception in the body ends it.\<close>

fun loop :: "('a \<Rightarrow> parsed \<Rightarrow> error + parsed) \<Rightarrow> 'a list \<Rightarrow> parsed \<Rightarrow> error + parsed" where
  "loop body [] acc = Inr acc"
| "loop body (x # xs) acc =
     (case body x acc of
        Inl e \<Rightarrow> Inl e
      | Inr acc' \<Rightarrow> loop body xs acc')"

definition parse_argspec :: "pyval \<Rightarrow> error + parsed" where
  "parse_argspec args =
     (if \<not> truthy args then Inr ([], [])
      else
        (case args of
           PDict items \<Rightarrow> loop dict_entry items ([], [])
         | PList es \<Rightarrow> loop seq_entry es ([], [])
         | PTuple es \<Rightarrow> loop seq_entry es ([], [])
         | _ \<Rightarrow> Inl (ValueError ''invalid metadata specification, must be a dict or sequence'')))"

section \<open>Tag merging and the store calls: \<^verbatim>\<open>Metadata.__call__\<close>\<close>

text \<open>
  \<^verbatim>\<open>x + untag\<close>, where \<^verbatim>\<open>untag\<close> is a list: list concatenation when \<^verbatim>\<open>x\<close> is a list,
  \<^verbatim>\<open>TypeError\<close> for every other value.
\<close>

fun py_add_list :: "pyval \<Rightarrow> pyval list \<Rightarrow> error + pyval list" where
  "py_add_list (PList xs) ys = Inr (xs @ ys)"
| "py_add_list _ ys = Inl TypeError"

text \<open>
  One of the three blocks that follow the comment
  \<^verbatim>\<open># merge all potential sources of tag specifications\<close>:
  \<^verbatim>\<open>
  all_untag = remove.get('tag', []) + untag
  if all_untag:
      remove['tag'] = all_untag
  \<close>
  The blocks for \<^verbatim>\<open>add\<close> and \<^verbatim>\<open>init\<close> differ in the names only.
\<close>

definition merge_tags :: "pyval list \<Rightarrow> pydict \<Rightarrow> error + pydict" where
  "merge_tags tags mapping =
     (case py_add_list (case map_of mapping ''tag'' of None \<Rightarrow> PList [] | Some v \<Rightarrow> v) tags of
        Inl e \<Rightarrow> Inl e
      | Inr all_tag \<Rightarrow>
          Inr (if all_tag \<noteq> [] then AList.update ''tag'' (PList all_tag) mapping
               else mapping))"

text \<open>
  The values of the locals \<^verbatim>\<open>add\<close>, \<^verbatim>\<open>init\<close>, \<^verbatim>\<open>remove\<close>, \<^verbatim>\<open>reset\<close> and
  \<^verbatim>\<open>purge\<close> once the arguments are in shape; they are the keyword arguments of
  \<^verbatim>\<open>ds.repo.set_metadata\<close>.
\<close>

record setter_args =
  add_arg :: pydict
  init_arg :: pydict
  remove_arg :: pydict
  reset_arg :: pydict
  purge_arg :: "pyval list"

text \<open>
  The first lines of \<^verbatim>\<open>Metadata.__call__\<close>, in the order of the source: the four
  calls of \<^verbatim>\<open>_parse_argspec\<close>, for \<^verbatim>\<open>remove\<close>, \<^verbatim>\<open>reset\<close>, \<^verbatim>\<open>add\<close> and
  \<^verbatim>\<open>init\<close>, then the merge blocks for \<^verbatim>\<open>remove\<close>, \<^verbatim>\<open>add\<close> and \<^verbatim>\<open>init\<close>. There
  is no merge block for \<^verbatim>\<open>reset\<close>: the tags of its argument are the local \<^verbatim>\<open>purge\<close>.
  The parameters are in the order of the signature.
\<close>

definition shape_args :: "pyval \<Rightarrow> pyval \<Rightarrow> pyval \<Rightarrow> pyval \<Rightarrow> error + setter_args" where
  "shape_args add init remove reset =
     (case parse_argspec remove of Inl e \<Rightarrow> Inl e | Inr (untag, remove_m) \<Rightarrow>
      case parse_argspec reset of Inl e \<Rightarrow> Inl e | Inr (purge, reset_m) \<Rightarrow>
      case parse_argspec add of Inl e \<Rightarrow> Inl e | Inr (tag_add, add_m) \<Rightarrow>
      case parse_argspec init of Inl e \<Rightarrow> Inl e | Inr (tag_init, init_m) \<Rightarrow>
      case merge_tags untag remove_m of Inl e \<Rightarrow> Inl e | Inr remove_t \<Rightarrow>
      case merge_tags tag_add add_m of Inl e \<Rightarrow> Inl e | Inr add_t \<Rightarrow>
      case merge_tags tag_init init_m of Inl e \<Rightarrow> Inl e | Inr init_t \<Rightarrow>
        Inr \<lparr>add_arg = add_t, init_arg = init_t, remove_arg = remove_t,
             reset_arg = reset_m, purge_arg = purge\<rparr>)"

text \<open>
  The rest of \<^verbatim>\<open>Metadata.__call__\<close> talks to code that is not part of this file: path
  annotation gives, for each dataset, its paths, and \<^verbatim>\<open>ds.repo\<close> is the store. The
  model keeps what the claims are about, the calls made to the store. A dataset is its
  path, whether \<^verbatim>\<open>ds.repo\<close> is an \<^verbatim>\<open>AnnexRepo\<close>, and \<^verbatim>\<open>ds_paths\<close>, the paths of its
  content. The answer of \<^verbatim>\<open>set_metadata\<close> is a parameter: for each path a success flag
  (\<^verbatim>\<open>mp.get('success', False)\<close>) and the file.
\<close>

record dataset =
  ds_path :: string
  is_annex :: bool
  ds_paths :: "string list"

datatype store_call =
    Set_metadata string "string list" setter_args
  | Get_metadata string "string list"

type_synonym store = "string \<Rightarrow> string list \<Rightarrow> setter_args \<Rightarrow> (bool \<times> string) list"

text \<open>
  The body of the loop over \<^verbatim>\<open>content_by_ds\<close>, as the store calls it makes and the
  exception that ends it, if one does. A dataset without annex is reported and skipped
  (\<^verbatim>\<open>continue\<close>). Otherwise \<^verbatim>\<open>set_metadata\<close> is called under the guard
  \<^verbatim>\<open>if reset or purge or add or init or remove\<close>, and its records are read in order:
  a record with \<^verbatim>\<open>success\<close> adds its file to \<^verbatim>\<open>mod_paths\<close>; for the first record
  without, the code evaluates \<^verbatim>\<open>mp[0]\<close> on the record, a dict with string keys, which
  raises \<^verbatim>\<open>KeyError\<close> before \<^verbatim>\<open>get_metadata\<close> is reached. After the records the
  query is made for \<^verbatim>\<open>mod_paths\<close>; without the mutation it is made for
  \<^verbatim>\<open>ds_paths\<close>. Exceptions raised inside the store are not part of the model.
\<close>

type_synonym calls_result = "store_call list \<times> error option"

definition ds_calls :: "store \<Rightarrow> setter_args \<Rightarrow> dataset \<Rightarrow> calls_result" where
  "ds_calls set_metadata args ds =
     (if \<not> is_annex ds then ([], None)
      else if reset_arg args \<noteq> [] \<or> purge_arg args \<noteq> [] \<or> add_arg args \<noteq> [] \<or>
              init_arg args \<noteq> [] \<or> remove_arg args \<noteq> [] then
        (let records = set_metadata (ds_path ds) (ds_paths ds) args
         in if list_all fst records then
              ([Set_metadata (ds_path ds) (ds_paths ds) args,
                Get_metadata (ds_path ds) (map snd records)], None)
            else ([Set_metadata (ds_path ds) (ds_paths ds) args], Some KeyError))
      else ([Get_metadata (ds_path ds) (ds_paths ds)], None))"

text \<open>The loop itself: an exception in the body ends it, with the calls made so far.\<close>

fun datasets_calls :: "store \<Rightarrow> setter_args \<Rightarrow> dataset list \<Rightarrow> calls_result" where
  "datasets_calls set_metadata args [] = ([], None)"
| "datasets_calls set_metadata args (ds # dss) =
     (case ds_calls set_metadata args ds of
        (calls, Some e) \<Rightarrow> (calls, Some e)
      | (calls, None) \<Rightarrow>
          (case datasets_calls set_metadata args dss of
             (calls', r) \<Rightarrow> (calls @ calls', r)))"

text \<open>
  The store calls of one invocation, run to its end, and the exception that ended it:
  no call when shaping the arguments raises, which happens before the first dataset is
  looked at.
\<close>

definition metadata_calls ::
    "store \<Rightarrow> dataset list \<Rightarrow> pyval \<Rightarrow> pyval \<Rightarrow> pyval \<Rightarrow> pyval \<Rightarrow> calls_result" where
  "metadata_calls set_metadata content_by_ds add init remove reset =
     (case shape_args add init remove reset of
        Inl e \<Rightarrow> ([], Some e)
      | Inr args \<Rightarrow> datasets_calls set_metadata args content_by_ds)"

fun is_set_call :: "store_call \<Rightarrow> bool" where
  "is_set_call (Set_metadata p ps args) = True"
| "is_set_call (Get_metadata p ps) = False"

text \<open>The type tests of \<^verbatim>\<open>isinstance(args, (dict, list, tuple))\<close>.\<close>

fun is_dict :: "pyval \<Rightarrow> bool" where
  "is_dict (PDict kvs) = True"
| "is_dict _ = False"

fun is_sequence :: "pyval \<Rightarrow> bool" where
  "is_sequence (PList xs) = True"
| "is_sequence (PTuple xs) = True"
| "is_sequence _ = False"

section \<open>Key validation\<close>

lemma newline_not_in_class: "\<not> in_class CHR 0x0A"
  by (simp add: in_class_def)

lemma takeWhile_all: "list_all P (takeWhile P xs)"
  by (induction xs) auto

lemma takeWhile_id: "list_all P body \<Longrightarrow> takeWhile P body = body"
  by (induction body) auto

lemma dropWhile_nil: "list_all P body \<Longrightarrow> dropWhile P body = []"
  by (induction body) auto

lemma takeWhile_body: "list_all P body \<Longrightarrow> \<not> P c \<Longrightarrow> takeWhile P (body @ [c]) = body"
  by (induction body) auto

lemma dropWhile_body: "list_all P body \<Longrightarrow> \<not> P c \<Longrightarrow> dropWhile P (body @ [c]) = [c]"
  by (induction body) auto

text \<open>
  The strings the pattern matches, said without the regular expression: one or more
  characters of the class, or that followed by one newline.
\<close>

lemma valid_key_match_iff:
  "valid_key_match k \<longleftrightarrow>
     (\<exists>body. body \<noteq> [] \<and> list_all in_class body \<and> (k = body \<or> k = body @ [CHR 0x0A]))"
proof
  assume m: "valid_key_match k"
  let ?body = "takeWhile in_class k"
  have split: "k = ?body @ dropWhile in_class k" by simp
  have all: "list_all in_class ?body" by (rule takeWhile_all)
  have ne: "?body \<noteq> []" using m unfolding valid_key_match_def by blast
  have rest: "dropWhile in_class k = [] \<or> dropWhile in_class k = [CHR 0x0A]"
    using m unfolding valid_key_match_def by blast
  from rest have "k = ?body \<or> k = ?body @ [CHR 0x0A]"
  proof
    assume "dropWhile in_class k = []"
    with split show ?thesis by (metis append_Nil2)
  next
    assume "dropWhile in_class k = [CHR 0x0A]"
    with split show ?thesis by metis
  qed
  with ne all
  show "\<exists>body. body \<noteq> [] \<and> list_all in_class body \<and> (k = body \<or> k = body @ [CHR 0x0A])"
    by blast
next
  assume "\<exists>body. body \<noteq> [] \<and> list_all in_class body \<and> (k = body \<or> k = body @ [CHR 0x0A])"
  then obtain body where b: "body \<noteq> []" "list_all in_class body"
    and k: "k = body \<or> k = body @ [CHR 0x0A]" by blast
  from k show "valid_key_match k"
  proof
    assume "k = body"
    with b show ?thesis
      unfolding valid_key_match_def by (simp only: takeWhile_id dropWhile_nil) simp
  next
    assume "k = body @ [CHR 0x0A]"
    with b show ?thesis
      unfolding valid_key_match_def
      by (simp only: takeWhile_body [OF b(2) newline_not_in_class]
          dropWhile_body [OF b(2) newline_not_in_class]) simp
  qed
qed

text \<open>Lower-casing at ASCII and Latin-1 letters, and at characters it keeps.\<close>

lemma lower_examples:
  "lower ''Color-9_Z.a'' = ''color-9_z.a'' \<and>
   lower [CHR 0xC9, CHR 0xD7, CHR 0xDF] = [CHR 0xE9, CHR 0xD7, CHR 0xDF]"
  by (simp add: lower_def lower_char_def is_upper_def)

lemma get_key_PStr:
  "get_key (PStr k) =
     (if valid_key_match (lower k) then Inr (lower k)
      else Inl (ValueError (invalid_key_message (lower k))))"
  by (simp add: Let_def)

text \<open>The two examples of the specification: \<^verbatim>\<open>"Color"\<close> and \<^verbatim>\<open>"co lor"\<close>.\<close>

lemma get_key_examples:
  "get_key (PStr ''Color'') = Inr ''color'' \<and>
   get_key (PStr ''co lor'') =
     Inl (ValueError ''invalid metadata key \"co lor\", must match pattern ^[0-9a-z._-]+$'')"
  by (simp add: lower_def lower_char_def is_upper_def valid_key_match_def in_class_def
      invalid_key_message_def valid_key_pattern_def)

text \<open>
  Claim C6. \<^verbatim>\<open>_get_key\<close> is to accept a key exactly when, lower-cased, it consists of
  one or more characters from digits, lower-case letters, \<^verbatim>\<open>.\<close>, \<^verbatim>\<open>_\<close> and \<^verbatim>\<open>-\<close>,
  and to raise otherwise. The code accepts more: the key \<^verbatim>\<open>"color\n"\<close> is returned,
  newline included, although a newline is not in the class, because \<^verbatim>\<open>$\<close> matches
  before a final newline.
\<close>

theorem get_key_accepts_trailing_newline:
  "get_key (PStr ''color\<newline>'') = Inr ''color\<newline>'' \<and> \<not> list_all in_class ''color\<newline>''"
  by (simp add: lower_def lower_char_def is_upper_def valid_key_match_def in_class_def)

section \<open>Normalisation\<close>

lemma loop_append:
  "loop body (xs @ ys) acc =
     (case loop body xs acc of Inl e \<Rightarrow> Inl e | Inr acc' \<Rightarrow> loop body ys acc')"
  by (induction xs arbitrary: acc) (auto split: sum.splits)

text \<open>An empty dict, list or tuple is falsy, and the loop over no entries returns the same.\<close>

lemma parse_argspec_PDict: "parse_argspec (PDict items) = loop dict_entry items ([], [])"
  by (cases items) (simp_all add: parse_argspec_def)

lemma parse_argspec_PList: "parse_argspec (PList es) = loop seq_entry es ([], [])"
  by (cases es) (simp_all add: parse_argspec_def)

lemma parse_argspec_PTuple: "parse_argspec (PTuple es) = loop seq_entry es ([], [])"
  by (cases es) (simp_all add: parse_argspec_def)

text \<open>
  Claim C4. For a dict argument, each pair \<open>(k, v)\<close> is processed on top of what the
  pairs before it gave: a truthy \<open>v\<close> is stored, as it is, under the validated key of
  \<open>k\<close> (and an invalid key ends the call with its error); a falsy \<open>v\<close> appends \<open>k\<close>
  itself to the tags, and \<open>k\<close> is not validated. An error of an earlier pair stays.
  The dict \<^verbatim>\<open>{"color": "", "mood": "happy"}\<close> gives \<^verbatim>\<open>(["color"], {"mood": "happy"})\<close>.
\<close>

theorem parse_argspec_dict_pairs:
  "parse_argspec (PDict []) = Inr ([], []) \<and>
   parse_argspec (PDict (items @ [(k, v)])) =
     (case parse_argspec (PDict items) of
        Inl e \<Rightarrow> Inl e
      | Inr (tags, mapping) \<Rightarrow>
          if truthy v then
            (case get_key k of
               Inl e \<Rightarrow> Inl e
             | Inr key \<Rightarrow> Inr (tags, AList.update key v mapping))
          else Inr (tags @ [k], mapping)) \<and>
   parse_argspec (PDict [(PStr ''color'', PStr ''''), (PStr ''mood'', PStr ''happy'')]) =
     Inr ([PStr ''color''], [(''mood'', PStr ''happy'')])"
  by (simp add: parse_argspec_PDict loop_append lower_def lower_char_def is_upper_def valid_key_match_def
      in_class_def split: sum.splits prod.splits)

text \<open>
  Claim C4 at concrete pairs: a pair with the falsy value \<^verbatim>\<open>0\<close>, then a pair with a
  truthy value whose key is lower-cased, or a pair with the falsy value \<^verbatim>\<open>[]\<close>.
\<close>

theorem parse_argspec_dict_pairs_witness:
  "parse_argspec (PDict ([(PStr ''color'', PInt 0)] @ [(PStr ''Mood'', PStr ''happy'')])) =
     Inr ([PStr ''color''], [(''mood'', PStr ''happy'')]) \<and>
   parse_argspec (PDict ([(PStr ''color'', PInt 0)] @ [(PStr ''mood'', PList [])])) =
     Inr ([PStr ''color'', PStr ''mood''], [])"
  using parse_argspec_dict_pairs [of "[]" "PStr ''color''" "PInt 0"]
    parse_argspec_dict_pairs [of "[(PStr ''color'', PInt 0)]" "PStr ''Mood''" "PStr ''happy''"]
    parse_argspec_dict_pairs [of "[(PStr ''color'', PInt 0)]" "PStr ''mood''" "PList []"]
  by (simp add: lower_def lower_char_def is_upper_def valid_key_match_def in_class_def)

text \<open>
  Claim C3 as stated fails: a list or tuple is a sequence-shaped argument, but among the
  elements only a list is taken apart (\<^verbatim>\<open>isinstance(k, list)\<close>). The tuple
  \<^verbatim>\<open>("color", "red")\<close> is a sequence of length 2, and as an element it becomes a tag as
  a whole; no key \<^verbatim>\<open>color\<close> is set.
\<close>

theorem parse_argspec_tuple_element_is_tag:
  "is_sequence (PTuple [PStr ''color'', PStr ''red'']) \<and>
   length [PStr ''color'', PStr ''red''] > 1 \<and>
   parse_argspec (PList [PTuple [PStr ''color'', PStr ''red'']]) =
     Inr ([PTuple [PStr ''color'', PStr ''red'']], []) \<and>
   parse_argspec (PList [PTuple [PStr ''color'', PStr ''red'']]) \<noteq>
     Inr ([], [(''color'', PTuple [PStr ''red''])])"
  by (simp add: parse_argspec_def)

text \<open>
  Claim C3, amended. For a list or tuple argument, each element \<open>e\<close> is processed on top
  of what the elements before it gave: a list of length 1 appends its sole element to the
  tags; a list of length greater than 1 stores the list of its remaining elements under
  the validated key of its first element (and an invalid key ends the call with its
  error); an empty list ends the call with the \<^verbatim>\<open>ValueError\<close> "something weird"; every
  element that is not a list, a tuple included, is appended to the tags as it is. An error
  of an earlier element stays.
\<close>

theorem parse_argspec_seq_elements:
  assumes "seq = PList \<or> seq = PTuple"
  shows "parse_argspec (seq []) = Inr ([], []) \<and>
   parse_argspec (seq (es @ [e])) =
     (case parse_argspec (seq es) of
        Inl err \<Rightarrow> Inl err
      | Inr (tags, mapping) \<Rightarrow>
          (case e of
             PList [] \<Rightarrow> Inl (ValueError ''invalid metadata specification, something weird'')
           | PList [x] \<Rightarrow> Inr (tags @ [x], mapping)
           | PList (x # y # ys) \<Rightarrow>
               (case get_key x of
                  Inl err \<Rightarrow> Inl err
                | Inr key \<Rightarrow> Inr (tags, AList.update key (PList (y # ys)) mapping))
           | _ \<Rightarrow> Inr (tags @ [e], mapping)))"
  using assms
  by (auto simp add: parse_argspec_PList parse_argspec_PTuple loop_append
      split: sum.splits prod.splits pyval.splits list.splits)

text \<open>
  The amended claim C3 at concrete elements: a tag and a key with two values in a tuple,
  a tag and a bare string in a list, and an empty list as the only element.
\<close>

theorem parse_argspec_seq_elements_witness:
  "parse_argspec (PTuple ([PList [PStr ''urgent'']] @
       [PList [PStr ''Mood'', PStr ''red'', PStr ''blue'']])) =
     Inr ([PStr ''urgent''], [(''mood'', PList [PStr ''red'', PStr ''blue''])]) \<and>
   parse_argspec (PList ([PList [PStr ''urgent'']] @ [PStr ''bare''])) =
     Inr ([PStr ''urgent'', PStr ''bare''], []) \<and>
   parse_argspec (PList ([] @ [PList []])) =
     Inl (ValueError ''invalid metadata specification, something weird'')"
  using parse_argspec_seq_elements [of PTuple "[]" "PList [PStr ''urgent'']"]
    parse_argspec_seq_elements [of PTuple "[PList [PStr ''urgent'']]"
      "PList [PStr ''Mood'', PStr ''red'', PStr ''blue'']"]
    parse_argspec_seq_elements [of PList "[]" "PList [PStr ''urgent'']"]
    parse_argspec_seq_elements [of PList "[PList [PStr ''urgent'']]" "PStr ''bare''"]
    parse_argspec_seq_elements [of PList "[]" "PList []"]
  by (simp add: lower_def lower_char_def is_upper_def valid_key_match_def in_class_def)

text \<open>
  Claim C5 as stated fails: the test \<^verbatim>\<open>if not args\<close> comes before the type test, so a
  falsy argument that is neither a dict nor a list or tuple, such as \<^verbatim>\<open>0\<close>, returns
  \<^verbatim>\<open>([], {})\<close> and raises nothing.
\<close>

theorem parse_argspec_falsy_scalar:
  "\<not> is_dict (PInt 0) \<and> \<not> is_sequence (PInt 0) \<and> parse_argspec (PInt 0) = Inr ([], [])"
  by (simp add: parse_argspec_def)

text \<open>
  Claim C5, amended. \<^verbatim>\<open>_parse_argspec\<close> returns \<^verbatim>\<open>([], {})\<close> for every falsy argument
  (\<^verbatim>\<open>None\<close>, \<^verbatim>\<open>False\<close>, \<^verbatim>\<open>0\<close>, an empty string, dict, list or tuple); it raises
  the \<^verbatim>\<open>ValueError\<close> "must be a dict or sequence" for every truthy argument that is
  not a dict, list or tuple; and for a truthy dict, list or tuple the outcome is the one
  of the loop over its entries. There is no other case.
\<close>

theorem parse_argspec_dispatch:
  "(\<not> truthy args \<longrightarrow> parse_argspec args = Inr ([], [])) \<and>
   (truthy args \<and> \<not> is_dict args \<and> \<not> is_sequence args \<longrightarrow>
      parse_argspec args =
        Inl (ValueError ''invalid metadata specification, must be a dict or sequence'')) \<and>
   (truthy args \<and> (is_dict args \<or> is_sequence args) \<longrightarrow>
      (\<exists>items. args = PDict items \<and> parse_argspec args = loop dict_entry items ([], [])) \<or>
      (\<exists>es. (args = PList es \<or> args = PTuple es) \<and>
         parse_argspec args = loop seq_entry es ([], [])))"
  by (cases args) (simp_all add: parse_argspec_def)

text \<open>
  The amended claim C5 at \<^verbatim>\<open>None\<close>, \<^verbatim>\<open>[]\<close>, \<^verbatim>\<open>0\<close>, the string \<^verbatim>\<open>"urgent"\<close> and
  the list \<^verbatim>\<open>["urgent"]\<close>.
\<close>

theorem parse_argspec_dispatch_witness:
  "parse_argspec PNone = Inr ([], []) \<and>
   parse_argspec (PList []) = Inr ([], []) \<and>
   parse_argspec (PInt 0) = Inr ([], []) \<and>
   parse_argspec (PStr ''urgent'') =
     Inl (ValueError ''invalid metadata specification, must be a dict or sequence'') \<and>
   parse_argspec (PList [PStr ''urgent'']) = Inr ([PStr ''urgent''], [])"
  using parse_argspec_dispatch [of PNone] parse_argspec_dispatch [of "PList []"]
    parse_argspec_dispatch [of "PInt 0"] parse_argspec_dispatch [of "PStr ''urgent''"]
    parse_argspec_dispatch [of "PList [PStr ''urgent'']"]
  by simp

section \<open>Tag merging\<close>

text \<open>
  When the value under \<^verbatim>\<open>tag\<close> is a list, or there is none, merging succeeds: the
  value becomes that list followed by the tags, unless both are empty, when the mapping
  stays as it is.
\<close>

lemma merge_tags_list:
  assumes "(case map_of mapping ''tag'' of None \<Rightarrow> PList [] | Some v \<Rightarrow> v) = PList xs"
  shows "merge_tags tags mapping =
     Inr (if xs @ tags \<noteq> [] then AList.update ''tag'' (PList (xs @ tags)) mapping else mapping)"
  unfolding merge_tags_def assms by simp

text \<open>The examples of the specification: tags on top of a tag list, and nothing at all.\<close>

lemma merge_tags_examples:
  "merge_tags [PStr ''a'', PStr ''b''] [(''tag'', PList [PStr ''x''])] =
     Inr [(''tag'', PList [PStr ''x'', PStr ''a'', PStr ''b''])] \<and>
   merge_tags [] [] = Inr []"
  by (simp add: merge_tags_def)

text \<open>
  Claim C2. Merging is to set \<^verbatim>\<open>mapping["tag"]\<close> to the values already there followed
  by the bare tags, for every pair that \<^verbatim>\<open>_parse_argspec\<close> can return. The code does
  not, for a pair that comes from a dict with a scalar under \<^verbatim>\<open>tag\<close>: the argument
  \<^verbatim>\<open>add={"tag": "urgent"}\<close> is parsed to \<^verbatim>\<open>([], {"tag": "urgent"})\<close>, then
  \<^verbatim>\<open>"urgent" + []\<close> raises \<^verbatim>\<open>TypeError\<close> and the call ends.
\<close>

theorem merge_tags_scalar_tag:
  "parse_argspec (PDict [(PStr ''tag'', PStr ''urgent'')]) =
     Inr ([], [(''tag'', PStr ''urgent'')]) \<and>
   merge_tags [] [(''tag'', PStr ''urgent'')] = Inl TypeError \<and>
   shape_args (PDict [(PStr ''tag'', PStr ''urgent'')]) PNone PNone PNone = Inl TypeError"
  by (simp add: shape_args_def parse_argspec_def merge_tags_def
      lower_def lower_char_def is_upper_def valid_key_match_def in_class_def)

lemma filter_update_other:
  "filter (\<lambda>p. fst p \<noteq> k) (AList.update k v m) = filter (\<lambda>p. fst p \<noteq> k) m"
  by (induction m) auto

text \<open>
  Claim C10. Merging changes the entry \<^verbatim>\<open>tag\<close> only: every other key has, after it,
  the value it had before, and the entries of the other keys are the same, in the same
  order.
\<close>

theorem merge_tags_frame:
  assumes "merge_tags tags mapping = Inr m"
  shows "(\<forall>k. k \<noteq> ''tag'' \<longrightarrow> map_of m k = map_of mapping k) \<and>
         filter (\<lambda>p. fst p \<noteq> ''tag'') m = filter (\<lambda>p. fst p \<noteq> ''tag'') mapping"
  using assms
  by (auto simp: merge_tags_def update_conv' filter_update_other split: sum.splits if_splits)

text \<open>
  Claim C10 at the mapping \<^verbatim>\<open>{"color": ["red"], "tag": ["x"]}\<close> with the tag
  \<^verbatim>\<open>a\<close>: the value of \<^verbatim>\<open>color\<close> is the same before and after.
\<close>

theorem merge_tags_frame_witness:
  "merge_tags [PStr ''a''] [(''color'', PList [PStr ''red'']), (''tag'', PList [PStr ''x''])] =
     Inr [(''color'', PList [PStr ''red'']), (''tag'', PList [PStr ''x'', PStr ''a''])] \<and>
   map_of [(''color'', PList [PStr ''red'']), (''tag'', PList [PStr ''x'', PStr ''a''])] ''color'' =
     map_of [(''color'', PList [PStr ''red'']), (''tag'', PList [PStr ''x''])] ''color''"
proof -
  have m: "merge_tags [PStr ''a''] [(''color'', PList [PStr ''red'']), (''tag'', PList [PStr ''x''])] =
     Inr [(''color'', PList [PStr ''red'']), (''tag'', PList [PStr ''x'', PStr ''a''])]"
    by (simp add: merge_tags_def)
  from merge_tags_frame [OF m] m show ?thesis by simp
qed

section \<open>Truthy values\<close>

lemma list_all_update:
  "list_all P m \<Longrightarrow> P (k, v) \<Longrightarrow> list_all P (AList.update k v m)"
  by (induction m) auto

lemma tl_nonempty: "1 < length l \<Longrightarrow> tl l \<noteq> []"
  by (cases l) auto

lemma dict_entry_truthy:
  "dict_entry kv acc = Inr acc' \<Longrightarrow> list_all (truthy \<circ> snd) (snd acc) \<Longrightarrow>
   list_all (truthy \<circ> snd) (snd acc')"
  by (cases kv; cases acc) (auto simp: list_all_update split: if_splits sum.splits)

lemma seq_entry_truthy:
  "seq_entry k acc = Inr acc' \<Longrightarrow> list_all (truthy \<circ> snd) (snd acc) \<Longrightarrow>
   list_all (truthy \<circ> snd) (snd acc')"
  by (cases acc; cases k) (auto simp: list_all_update tl_nonempty split: if_splits sum.splits)

lemma loop_dict_entry_truthy:
  "loop dict_entry items acc = Inr acc' \<Longrightarrow> list_all (truthy \<circ> snd) (snd acc) \<Longrightarrow>
   list_all (truthy \<circ> snd) (snd acc')"
proof (induction items arbitrary: acc)
  case Nil
  then show ?case by simp
next
  case (Cons kv items)
  from Cons.prems(1) obtain acc1 where
    step: "dict_entry kv acc = Inr acc1" and rest: "loop dict_entry items acc1 = Inr acc'"
    by (auto split: sum.splits)
  show ?case by (rule Cons.IH [OF rest dict_entry_truthy [OF step Cons.prems(2)]])
qed

lemma loop_seq_entry_truthy:
  "loop seq_entry es acc = Inr acc' \<Longrightarrow> list_all (truthy \<circ> snd) (snd acc) \<Longrightarrow>
   list_all (truthy \<circ> snd) (snd acc')"
proof (induction es arbitrary: acc)
  case Nil
  then show ?case by simp
next
  case (Cons e es)
  from Cons.prems(1) obtain acc1 where
    step: "seq_entry e acc = Inr acc1" and rest: "loop seq_entry es acc1 = Inr acc'"
    by (auto split: sum.splits)
  show ?case by (rule Cons.IH [OF rest seq_entry_truthy [OF step Cons.prems(2)]])
qed

lemma parse_argspec_truthy:
  assumes "parse_argspec args = Inr (tags, mapping)"
  shows "list_all (truthy \<circ> snd) mapping"
proof (cases args)
  case (PDict items)
  with assms have "loop dict_entry items ([], []) = Inr (tags, mapping)"
    by (simp add: parse_argspec_PDict)
  from loop_dict_entry_truthy [OF this] show ?thesis by simp
next
  case (PList es)
  with assms have "loop seq_entry es ([], []) = Inr (tags, mapping)"
    by (simp add: parse_argspec_PList)
  from loop_seq_entry_truthy [OF this] show ?thesis by simp
next
  case (PTuple es)
  with assms have "loop seq_entry es ([], []) = Inr (tags, mapping)"
    by (simp add: parse_argspec_PTuple)
  from loop_seq_entry_truthy [OF this] show ?thesis by simp
qed (use assms in \<open>auto simp: parse_argspec_def split: if_splits\<close>)

lemma merge_tags_truthy:
  "merge_tags tags mapping = Inr m \<Longrightarrow> list_all (truthy \<circ> snd) mapping \<Longrightarrow>
   list_all (truthy \<circ> snd) m"
  by (auto simp: merge_tags_def list_all_update split: sum.splits if_splits)

text \<open>
  Claim C9. Whenever \<^verbatim>\<open>_parse_argspec\<close> returns, every value of the mapping it returns
  is truthy, and so is every value of the mapping after the tags were merged into it.
\<close>

theorem canonical_values_truthy:
  assumes "parse_argspec args = Inr (tags, mapping)"
  shows "list_all (truthy \<circ> snd) mapping \<and>
         (\<forall>m. merge_tags tags mapping = Inr m \<longrightarrow> list_all (truthy \<circ> snd) m)"
  using parse_argspec_truthy [OF assms] merge_tags_truthy by blast

text \<open>
  Claim C9 at the argument \<^verbatim>\<open>[["urgent"], ["color", "red"]]\<close>: the mapping before and
  after merging.
\<close>

theorem canonical_values_truthy_witness:
  "parse_argspec (PList [PList [PStr ''urgent''], PList [PStr ''color'', PStr ''red'']]) =
     Inr ([PStr ''urgent''], [(''color'', PList [PStr ''red''])]) \<and>
   merge_tags [PStr ''urgent''] [(''color'', PList [PStr ''red''])] =
     Inr [(''color'', PList [PStr ''red'']), (''tag'', PList [PStr ''urgent''])] \<and>
   list_all (truthy \<circ> snd) [(''color'', PList [PStr ''red''])] \<and>
   list_all (truthy \<circ> snd) [(''color'', PList [PStr ''red'']), (''tag'', PList [PStr ''urgent''])]"
proof -
  have p: "parse_argspec (PList [PList [PStr ''urgent''], PList [PStr ''color'', PStr ''red'']]) =
     Inr ([PStr ''urgent''], [(''color'', PList [PStr ''red''])])"
    by (simp add: parse_argspec_def lower_def lower_char_def is_upper_def valid_key_match_def in_class_def)
  have m: "merge_tags [PStr ''urgent''] [(''color'', PList [PStr ''red''])] =
     Inr [(''color'', PList [PStr ''red'']), (''tag'', PList [PStr ''urgent''])]"
    by (simp add: merge_tags_def)
  from canonical_values_truthy [OF p] p m show ?thesis by blast
qed

section \<open>The four operation classes and the store\<close>

lemma shape_args_InrD:
  assumes "shape_args add init remove reset = Inr args"
  shows "\<exists>untag rm tag_add ad tag_init ini.
     parse_argspec remove = Inr (untag, rm) \<and> merge_tags untag rm = Inr (remove_arg args) \<and>
     parse_argspec add = Inr (tag_add, ad) \<and> merge_tags tag_add ad = Inr (add_arg args) \<and>
     parse_argspec init = Inr (tag_init, ini) \<and> merge_tags tag_init ini = Inr (init_arg args) \<and>
     parse_argspec reset = Inr (purge_arg args, reset_arg args)"
  using assms by (auto simp: shape_args_def split: sum.splits prod.splits)

text \<open>
  What merging gives for a pair that \<^verbatim>\<open>_parse_argspec\<close> returned, when it does not
  raise: the value under \<^verbatim>\<open>tag\<close> was a list \<open>xs\<close> (the empty one when there was no
  such key), and the merged mapping has \<open>xs\<close> followed by the tags under \<^verbatim>\<open>tag\<close>, or
  no key \<^verbatim>\<open>tag\<close> when both are empty.
\<close>

lemma truthy_lookup:
  "list_all (truthy \<circ> snd) m \<Longrightarrow> map_of m k = Some v \<Longrightarrow> truthy v"
  by (induction m) (auto split: if_splits)

lemma merged_class:
  assumes p: "parse_argspec arg = Inr (tags, m)" and mt: "merge_tags tags m = Inr m'"
  shows "\<exists>xs. (case map_of m ''tag'' of None \<Rightarrow> PList [] | Some v \<Rightarrow> v) = PList xs \<and>
           m' = (if xs @ tags \<noteq> [] then AList.update ''tag'' (PList (xs @ tags)) m else m) \<and>
           map_of m' ''tag'' = (if xs @ tags \<noteq> [] then Some (PList (xs @ tags)) else None)"
proof -
  let ?existing = "case map_of m ''tag'' of None \<Rightarrow> PList [] | Some v \<Rightarrow> v"
  from mt obtain xs where ex: "?existing = PList xs"
    by (cases ?existing) (auto simp: merge_tags_def)
  from merge_tags_list [OF ex, of tags] mt have m':
    "m' = (if xs @ tags \<noteq> [] then AList.update ''tag'' (PList (xs @ tags)) m else m)"
    by simp
  have "map_of m' ''tag'' = (if xs @ tags \<noteq> [] then Some (PList (xs @ tags)) else None)"
  proof (cases "xs @ tags \<noteq> []")
    case True
    with m' show ?thesis by (simp add: update_conv')
  next
    case False
    then have xs: "xs = []" by simp
    have "map_of m ''tag'' = None"
    proof (cases "map_of m ''tag''")
      case (Some v)
      from truthy_lookup [OF parse_argspec_truthy [OF p] Some] have "truthy v" .
      moreover from ex Some xs have "v = PList []" by simp
      ultimately show ?thesis by simp
    qed simp
    with False m' show ?thesis by simp
  qed
  with ex m' show ?thesis by blast
qed

lemma ds_calls_args:
  "Set_metadata p ps a \<in> set (fst (ds_calls st args ds)) \<Longrightarrow> a = args"
  by (auto simp: ds_calls_def Let_def split: if_splits)

lemma datasets_calls_args:
  "Set_metadata p ps a \<in> set (fst (datasets_calls st args dss)) \<Longrightarrow> a = args"
proof (induction dss)
  case Nil
  then show ?case by simp
next
  case (Cons ds dss)
  obtain calls r where d: "ds_calls st args ds = (calls, r)" by (cases "ds_calls st args ds")
  obtain calls' r' where ds: "datasets_calls st args dss = (calls', r')"
    by (cases "datasets_calls st args dss")
  from Cons.prems d ds have "Set_metadata p ps a \<in> set calls \<or> Set_metadata p ps a \<in> set calls'"
    by (cases r) auto
  then show ?case
  proof
    assume "Set_metadata p ps a \<in> set calls"
    with d ds_calls_args [of p ps a st args ds] show ?thesis by simp
  next
    assume "Set_metadata p ps a \<in> set calls'"
    with ds Cons.IH show ?thesis by simp
  qed
qed

lemma datasets_calls_first:
  assumes "is_annex ds"
    and "reset_arg args \<noteq> [] \<or> purge_arg args \<noteq> [] \<or> add_arg args \<noteq> [] \<or>
         init_arg args \<noteq> [] \<or> remove_arg args \<noteq> []"
  shows "\<exists>rest. fst (datasets_calls st args (ds # dss)) =
           Set_metadata (ds_path ds) (ds_paths ds) args # rest"
proof -
  have "\<exists>rest r. ds_calls st args ds =
          (Set_metadata (ds_path ds) (ds_paths ds) args # rest, r)"
  proof (cases "list_all fst (st (ds_path ds) (ds_paths ds) args)")
    case True
    with assms show ?thesis by (simp add: ds_calls_def Let_def)
  next
    case False
    with assms show ?thesis by (simp add: ds_calls_def Let_def)
  qed
  then obtain rest r where d:
    "ds_calls st args ds = (Set_metadata (ds_path ds) (ds_paths ds) args # rest, r)"
    by blast
  obtain calls' r' where ds: "datasets_calls st args dss = (calls', r')"
    by (cases "datasets_calls st args dss")
  from d ds show ?thesis by (cases r) auto
qed

lemma datasets_calls_query_only:
  assumes "add_arg args = []" and "init_arg args = []" and "remove_arg args = []"
    and "reset_arg args = []" and "purge_arg args = []"
  shows "datasets_calls st args dss =
           (map (\<lambda>ds. Get_metadata (ds_path ds) (ds_paths ds)) (filter is_annex dss), None)"
  using assms by (induction dss) (simp_all add: ds_calls_def)

lemma no_set_call_in_queries:
  "filter is_set_call (map (\<lambda>ds. Get_metadata (ds_path ds) (ds_paths ds)) dss) = []"
  by (induction dss) simp_all

text \<open>
  Claim C1 as stated fails for the class \<^verbatim>\<open>reset\<close>: its bare tags are not merged into
  its mapping. With \<^verbatim>\<open>reset=[["urgent"]]\<close> the mapping \<^verbatim>\<open>reset\<close> stays empty, with no
  key \<^verbatim>\<open>tag\<close>, and \<^verbatim>\<open>urgent\<close> is in \<^verbatim>\<open>purge\<close>; merging would have given
  \<^verbatim>\<open>{"tag": ["urgent"]}\<close>.
\<close>

theorem shape_args_reset_not_merged:
  "shape_args PNone PNone PNone (PList [PList [PStr ''urgent'']]) =
     Inr \<lparr>add_arg = [], init_arg = [], remove_arg = [], reset_arg = [],
          purge_arg = [PStr ''urgent'']\<rparr> \<and>
   parse_argspec (PList [PList [PStr ''urgent'']]) = Inr ([PStr ''urgent''], []) \<and>
   merge_tags [PStr ''urgent''] [] = Inr [(''tag'', PList [PStr ''urgent''])]"
  by (simp add: shape_args_def parse_argspec_def merge_tags_def)

text \<open>
  Claim C1, amended. In every invocation that gets past the shaping of its arguments, for
  each of the classes \<^verbatim>\<open>remove\<close>, \<^verbatim>\<open>add\<close> and \<^verbatim>\<open>init\<close> the mapping of the class is
  the mapping \<^verbatim>\<open>_parse_argspec\<close> returned for the argument of that class, with the list
  under its key \<^verbatim>\<open>tag\<close> followed by the bare tags of that same argument stored under
  \<^verbatim>\<open>tag\<close> (and left as it is, without a key \<^verbatim>\<open>tag\<close>, when both are empty). The
  mapping of \<^verbatim>\<open>reset\<close> is the one \<^verbatim>\<open>_parse_argspec\<close> returned, and the bare tags of
  \<^verbatim>\<open>reset\<close> are the separate list \<^verbatim>\<open>purge\<close>. Every call of \<^verbatim>\<open>set_metadata\<close>
  that the invocation makes is given these five values, and when the first dataset has an
  annex and one of the five is not empty, the first call to the store is that call.
\<close>

theorem shape_args_classes:
  assumes "shape_args add init remove reset = Inr args"
  shows "(\<exists>untag m xs. parse_argspec remove = Inr (untag, m) \<and>
            (case map_of m ''tag'' of None \<Rightarrow> PList [] | Some v \<Rightarrow> v) = PList xs \<and>
            remove_arg args =
              (if xs @ untag \<noteq> [] then AList.update ''tag'' (PList (xs @ untag)) m else m) \<and>
            map_of (remove_arg args) ''tag'' =
              (if xs @ untag \<noteq> [] then Some (PList (xs @ untag)) else None)) \<and>
         (\<exists>tag_add m xs. parse_argspec add = Inr (tag_add, m) \<and>
            (case map_of m ''tag'' of None \<Rightarrow> PList [] | Some v \<Rightarrow> v) = PList xs \<and>
            add_arg args =
              (if xs @ tag_add \<noteq> [] then AList.update ''tag'' (PList (xs @ tag_add)) m else m) \<and>
            map_of (add_arg args) ''tag'' =
              (if xs @ tag_add \<noteq> [] then Some (PList (xs @ tag_add)) else None)) \<and>
         (\<exists>tag_init m xs. parse_argspec init = Inr (tag_init, m) \<and>
            (case map_of m ''tag'' of None \<Rightarrow> PList [] | Some v \<Rightarrow> v) = PList xs \<and>
            init_arg args =
              (if xs @ tag_init \<noteq> [] then AList.update ''tag'' (PList (xs @ tag_init)) m else m) \<and>
            map_of (init_arg args) ''tag'' =
              (if xs @ tag_init \<noteq> [] then Some (PList (xs @ tag_init)) else None)) \<and>
         parse_argspec reset = Inr (purge_arg args, reset_arg args) \<and>
         (\<forall>p ps a. Set_metadata p ps a \<in>
              set (fst (metadata_calls st content_by_ds add init remove reset)) \<longrightarrow> a = args) \<and>
         (\<forall>ds dss. content_by_ds = ds # dss \<and> is_annex ds \<and>
              (reset_arg args \<noteq> [] \<or> purge_arg args \<noteq> [] \<or> add_arg args \<noteq> [] \<or>
               init_arg args \<noteq> [] \<or> remove_arg args \<noteq> []) \<longrightarrow>
            (\<exists>rest. fst (metadata_calls st content_by_ds add init remove reset) =
               Set_metadata (ds_path ds) (ds_paths ds) args # rest))"
proof -
  from shape_args_InrD [OF assms] obtain untag rm tag_add ad tag_init ini where
    pr: "parse_argspec remove = Inr (untag, rm)" and mr: "merge_tags untag rm = Inr (remove_arg args)"
    and pa: "parse_argspec add = Inr (tag_add, ad)" and ma: "merge_tags tag_add ad = Inr (add_arg args)"
    and pi: "parse_argspec init = Inr (tag_init, ini)"
    and mi: "merge_tags tag_init ini = Inr (init_arg args)"
    and ps: "parse_argspec reset = Inr (purge_arg args, reset_arg args)"
    by blast
  have calls: "metadata_calls st content_by_ds add init remove reset =
      datasets_calls st args content_by_ds"
    using assms by (simp add: metadata_calls_def)
  have c1: "\<exists>untag m xs. parse_argspec remove = Inr (untag, m) \<and>
            (case map_of m ''tag'' of None \<Rightarrow> PList [] | Some v \<Rightarrow> v) = PList xs \<and>
            remove_arg args =
              (if xs @ untag \<noteq> [] then AList.update ''tag'' (PList (xs @ untag)) m else m) \<and>
            map_of (remove_arg args) ''tag'' =
              (if xs @ untag \<noteq> [] then Some (PList (xs @ untag)) else None)"
    using merged_class [OF pr mr] pr by blast
  have c2: "\<exists>tag_add m xs. parse_argspec add = Inr (tag_add, m) \<and>
            (case map_of m ''tag'' of None \<Rightarrow> PList [] | Some v \<Rightarrow> v) = PList xs \<and>
            add_arg args =
              (if xs @ tag_add \<noteq> [] then AList.update ''tag'' (PList (xs @ tag_add)) m else m) \<and>
            map_of (add_arg args) ''tag'' =
              (if xs @ tag_add \<noteq> [] then Some (PList (xs @ tag_add)) else None)"
    using merged_class [OF pa ma] pa by blast
  have c3: "\<exists>tag_init m xs. parse_argspec init = Inr (tag_init, m) \<and>
            (case map_of m ''tag'' of None \<Rightarrow> PList [] | Some v \<Rightarrow> v) = PList xs \<and>
            init_arg args =
              (if xs @ tag_init \<noteq> [] then AList.update ''tag'' (PList (xs @ tag_init)) m else m) \<and>
            map_of (init_arg args) ''tag'' =
              (if xs @ tag_init \<noteq> [] then Some (PList (xs @ tag_init)) else None)"
    using merged_class [OF pi mi] pi by blast
  have c5: "\<forall>p ps a. Set_metadata p ps a \<in>
              set (fst (metadata_calls st content_by_ds add init remove reset)) \<longrightarrow> a = args"
    unfolding calls using datasets_calls_args by blast
  have c6: "\<forall>ds dss. content_by_ds = ds # dss \<and> is_annex ds \<and>
              (reset_arg args \<noteq> [] \<or> purge_arg args \<noteq> [] \<or> add_arg args \<noteq> [] \<or>
               init_arg args \<noteq> [] \<or> remove_arg args \<noteq> []) \<longrightarrow>
            (\<exists>rest. fst (metadata_calls st content_by_ds add init remove reset) =
               Set_metadata (ds_path ds) (ds_paths ds) args # rest)"
    unfolding calls using datasets_calls_first by blast
  from c1 c2 c3 ps c5 c6 show ?thesis by (intro conjI)
qed

text \<open>
  The amended claim C1 at \<^verbatim>\<open>add=[["status", "draft"], ["urgent"]]\<close>,
  \<^verbatim>\<open>remove={"old": None}\<close> and \<^verbatim>\<open>reset=[["k"]]\<close>, with one annex dataset and a store
  that reports success for its file.
\<close>

theorem shape_args_classes_witness:
  "shape_args (PList [PList [PStr ''status'', PStr ''draft''], PList [PStr ''urgent'']]) PNone
     (PDict [(PStr ''old'', PNone)]) (PList [PList [PStr ''k'']]) =
     Inr \<lparr>add_arg = [(''status'', PList [PStr ''draft'']), (''tag'', PList [PStr ''urgent''])],
          init_arg = [], remove_arg = [(''tag'', PList [PStr ''old''])], reset_arg = [],
          purge_arg = [PStr ''k'']\<rparr> \<and>
   parse_argspec (PList [PList [PStr ''k'']]) = Inr ([PStr ''k''], []) \<and>
   (\<exists>rest. fst (metadata_calls (\<lambda>p ps a. map (Pair True) ps)
        [\<lparr>ds_path = ''/ds'', is_annex = True, ds_paths = [''/ds/f'']\<rparr>]
        (PList [PList [PStr ''status'', PStr ''draft''], PList [PStr ''urgent'']]) PNone
        (PDict [(PStr ''old'', PNone)]) (PList [PList [PStr ''k'']])) =
      Set_metadata ''/ds'' [''/ds/f'']
        \<lparr>add_arg = [(''status'', PList [PStr ''draft'']), (''tag'', PList [PStr ''urgent''])],
         init_arg = [], remove_arg = [(''tag'', PList [PStr ''old''])], reset_arg = [],
         purge_arg = [PStr ''k'']\<rparr> # rest)"
proof -
  have sh: "shape_args (PList [PList [PStr ''status'', PStr ''draft''], PList [PStr ''urgent'']]) PNone
     (PDict [(PStr ''old'', PNone)]) (PList [PList [PStr ''k'']]) =
     Inr \<lparr>add_arg = [(''status'', PList [PStr ''draft'']), (''tag'', PList [PStr ''urgent''])],
          init_arg = [], remove_arg = [(''tag'', PList [PStr ''old''])], reset_arg = [],
          purge_arg = [PStr ''k'']\<rparr>"
    by (simp add: shape_args_def parse_argspec_def merge_tags_def
        lower_def lower_char_def is_upper_def valid_key_match_def in_class_def)
  from shape_args_classes [OF sh, of "\<lambda>p ps a. map (Pair True) ps"
      "[\<lparr>ds_path = ''/ds'', is_annex = True, ds_paths = [''/ds/f'']\<rparr>]"] sh
  show ?thesis by simp
qed

text \<open>
  Claim C8. The mapping of a class depends on the argument of that class only: two
  invocations that both get past the shaping of their arguments and agree on the argument
  of a class have the same mapping for it, whatever the arguments of the other classes.
\<close>

theorem class_isolation:
  assumes "shape_args add init remove reset = Inr args"
    and "shape_args add' init' remove' reset' = Inr args'"
  shows "(add = add' \<longrightarrow> add_arg args = add_arg args') \<and>
         (init = init' \<longrightarrow> init_arg args = init_arg args') \<and>
         (remove = remove' \<longrightarrow> remove_arg args = remove_arg args') \<and>
         (reset = reset' \<longrightarrow> reset_arg args = reset_arg args')"
  using shape_args_InrD [OF assms(1)] shape_args_InrD [OF assms(2)]
  by auto

text \<open>
  Claim C8 at two invocations with \<^verbatim>\<open>add=["new"]\<close>, one with \<^verbatim>\<open>remove=["old"]\<close> and
  one without: the mappings of \<^verbatim>\<open>add\<close>, \<^verbatim>\<open>init\<close> and \<^verbatim>\<open>reset\<close> are the same, and
  \<^verbatim>\<open>old\<close> is in none of them.
\<close>

theorem class_isolation_witness:
  "shape_args (PList [PStr ''new'']) PNone (PList [PStr ''old'']) PNone =
     Inr \<lparr>add_arg = [(''tag'', PList [PStr ''new''])], init_arg = [],
          remove_arg = [(''tag'', PList [PStr ''old''])], reset_arg = [], purge_arg = []\<rparr> \<and>
   shape_args (PList [PStr ''new'']) PNone PNone PNone =
     Inr \<lparr>add_arg = [(''tag'', PList [PStr ''new''])], init_arg = [],
          remove_arg = [], reset_arg = [], purge_arg = []\<rparr>"
proof -
  have a: "shape_args (PList [PStr ''new'']) PNone (PList [PStr ''old'']) PNone =
     Inr \<lparr>add_arg = [(''tag'', PList [PStr ''new''])], init_arg = [],
            remove_arg = [(''tag'', PList [PStr ''old''])], reset_arg = [], purge_arg = []\<rparr>"
    by (simp add: shape_args_def parse_argspec_def merge_tags_def)
  have b: "shape_args (PList [PStr ''new'']) PNone PNone PNone =
     Inr \<lparr>add_arg = [(''tag'', PList [PStr ''new''])], init_arg = [],
            remove_arg = [], reset_arg = [], purge_arg = []\<rparr>"
    by (simp add: shape_args_def parse_argspec_def merge_tags_def)
  from class_isolation [OF a b] a b show ?thesis by blast
qed

text \<open>
  Claim C7 as stated fails: the guard is
  \<^verbatim>\<open>if reset or purge or add or init or remove\<close>. With \<^verbatim>\<open>reset=[["k"]]\<close> the four
  mappings are empty, \<^verbatim>\<open>purge\<close> is not, and \<^verbatim>\<open>set_metadata\<close> is called.
\<close>

theorem purge_alone_triggers_set_metadata:
  "shape_args PNone PNone PNone (PList [PList [PStr ''k'']]) =
     Inr \<lparr>add_arg = [], init_arg = [], remove_arg = [], reset_arg = [],
          purge_arg = [PStr ''k'']\<rparr> \<and>
   metadata_calls (\<lambda>p ps a. map (Pair True) ps)
     [\<lparr>ds_path = ''/ds'', is_annex = True, ds_paths = [''/ds/f'']\<rparr>]
     PNone PNone PNone (PList [PList [PStr ''k'']]) =
     ([Set_metadata ''/ds'' [''/ds/f'']
         \<lparr>add_arg = [], init_arg = [], remove_arg = [], reset_arg = [],
          purge_arg = [PStr ''k'']\<rparr>,
       Get_metadata ''/ds'' [''/ds/f'']], None)"
  by (simp add: metadata_calls_def ds_calls_def shape_args_def parse_argspec_def merge_tags_def)

text \<open>
  Claim C7, amended. If the four mappings and the list \<^verbatim>\<open>purge\<close> are all empty, no
  call of \<^verbatim>\<open>set_metadata\<close> is made: the invocation raises nothing, and its calls to
  the store are one query per annex dataset, for its paths.
\<close>

theorem query_only_when_nothing_to_set:
  assumes "shape_args add init remove reset = Inr args"
    and "add_arg args = []" and "init_arg args = []" and "remove_arg args = []"
    and "reset_arg args = []" and "purge_arg args = []"
  shows "metadata_calls st content_by_ds add init remove reset =
           (map (\<lambda>ds. Get_metadata (ds_path ds) (ds_paths ds))
              (filter is_annex content_by_ds), None) \<and>
         filter is_set_call
           (map (\<lambda>ds. Get_metadata (ds_path ds) (ds_paths ds))
              (filter is_annex content_by_ds)) = []"
  using assms(1) datasets_calls_query_only [OF assms(2-), of st content_by_ds]
    no_set_call_in_queries [of "filter is_annex content_by_ds"]
  by (simp add: metadata_calls_def)

text \<open>
  The amended claim C7 at \<^verbatim>\<open>init=[]\<close>, \<^verbatim>\<open>remove={}\<close> and one annex dataset with
  one file: the only call is the query.
\<close>

theorem query_only_when_nothing_to_set_witness:
  "metadata_calls (\<lambda>p ps a. map (Pair True) ps)
     [\<lparr>ds_path = ''/ds'', is_annex = True, ds_paths = [''/ds/f'']\<rparr>]
     PNone (PList []) (PDict []) PNone =
     ([Get_metadata ''/ds'' [''/ds/f'']], None)"
proof -
  have sh: "shape_args PNone (PList []) (PDict []) PNone =
     Inr \<lparr>add_arg = [], init_arg = [], remove_arg = [], reset_arg = [], purge_arg = []\<rparr>"
    by (simp add: shape_args_def parse_argspec_def merge_tags_def)
  from query_only_when_nothing_to_set [OF sh, of "\<lambda>p ps a. map (Pair True) ps"
      "[\<lparr>ds_path = ''/ds'', is_annex = True, ds_paths = [''/ds/f'']\<rparr>]"]
  show ?thesis by simp
qed

text \<open>
  A store that reports a failure: the mutation is called, then \<^verbatim>\<open>mp[0]\<close> raises and
  the query is not made.
\<close>

lemma failed_record_raises:
  "metadata_calls (\<lambda>p ps a. map (Pair False) ps)
     [\<lparr>ds_path = ''/ds'', is_annex = True, ds_paths = [''/ds/f'']\<rparr>]
     (PList [PStr ''new'']) PNone PNone PNone =
     ([Set_metadata ''/ds'' [''/ds/f'']
         \<lparr>add_arg = [(''tag'', PList [PStr ''new''])], init_arg = [], remove_arg = [],
          reset_arg = [], purge_arg = []\<rparr>], Some KeyError)"
  by (simp add: metadata_calls_def ds_calls_def shape_args_def parse_argspec_def merge_tags_def)

end
